theory Spec2Isabelle
  imports Complex_Main
begin

section \<open>Values of the JavaScript runtime\<close>

text \<open>
  The vocabulary server is an Express application.  Its handlers work on JSON values: the
  request body, the rows the Supabase client returns, and whatever \<^verbatim>\<open>JSON.parse\<close> makes
  of the reply of the text-generation service.  A JSON value is modelled by \<open>jsval\<close>; an
  object is the list of its own properties (one pair per key), and a number is the real it
  denotes (the handlers compute with no number of a reply, so its rounding to a double is
  not modelled).  A property that is absent reads as \<^verbatim>\<open>undefined\<close>, which is \<open>None\<close> of
  \<open>jsval option\<close>.  Strings are \<open>char list\<close>.
\<close>

datatype jsval =
    JNull
  | JBool bool
  | JNum real
  | JStr string
  | JArr "jsval list"
  | JObj "(string \<times> jsval) list"

text \<open>
  The only exception the handlers raise themselves is the runtime's \<^verbatim>\<open>TypeError\<close> (a
  property read of \<^verbatim>\<open>null\<close>, a call of something that is not a function).  The text of its
  \<^verbatim>\<open>message\<close> is the engine's, so a message is either a given string or the message of a
  caught exception.
\<close>

datatype js_exception = TypeError

datatype error_message = Message string | MessageOf js_exception

subsection \<open>Strings\<close>

definition newline :: char where
  "newline = CHR 0x0A"

text \<open>\<^verbatim>\<open>xs.join(sep)\<close> on an array of strings.\<close>

fun join :: "string \<Rightarrow> string list \<Rightarrow> string" where
  "join sep [] = []"
| "join sep [x] = x"
| "join sep (x # y # ys) = x @ sep @ join sep (y # ys)"

text \<open>\<open>strip_prefix p s\<close> is the rest of \<open>s\<close> after its prefix \<open>p\<close>, when \<open>s\<close> starts with \<open>p\<close>.\<close>

fun strip_prefix :: "string \<Rightarrow> string \<Rightarrow> string option" where
  "strip_prefix [] s = Some s"
| "strip_prefix (p # ps) [] = None"
| "strip_prefix (p # ps) (c # cs) = (if p = c then strip_prefix ps cs else None)"

text \<open>\<^verbatim>\<open>s.includes(sub)\<close>: \<open>sub\<close> occurs in \<open>s\<close> as a contiguous substring.\<close>

fun js_includes :: "string \<Rightarrow> string \<Rightarrow> bool" where
  "js_includes [] sub = (sub = [])"
| "js_includes (c # cs) sub =
     (case strip_prefix sub (c # cs) of Some r \<Rightarrow> True | None \<Rightarrow> js_includes cs sub)"

text \<open>
  \<^verbatim>\<open>s.replace(/FENCE\n?/g, '')\<close> for a literal, non-empty \<open>FENCE\<close>: scanning from the left,
  every occurrence of the fence is dropped together with one newline that follows it.
\<close>

definition drop_newline :: "string \<Rightarrow> string" where
  "drop_newline s = (case s of [] \<Rightarrow> [] | d # ds \<Rightarrow> if d = newline then ds else d # ds)"

lemma strip_prefix_length:
  "strip_prefix p s = Some r \<Longrightarrow> length r + length p = length s"
  by (induction p s rule: strip_prefix.induct) (auto split: if_splits)

lemma drop_newline_length: "length (drop_newline s) \<le> length s"
  by (cases s) (auto simp: drop_newline_def)

function replace_fence :: "string \<Rightarrow> string \<Rightarrow> string" where
  "replace_fence [] s = s"
| "replace_fence (f # fs) [] = []"
| "replace_fence (f # fs) (c # cs) =
     (case strip_prefix (f # fs) (c # cs) of
        None \<Rightarrow> c # replace_fence (f # fs) cs
      | Some r \<Rightarrow> replace_fence (f # fs) (drop_newline r))"
  by pat_completeness auto
termination
proof (relation "measure (\<lambda>(fence, s). length s)")
  show "wf (measure (\<lambda>(fence, s). length s))" by simp
next
  fix f c :: char and fs cs :: string
  show "((f # fs, cs), (f # fs, c # cs)) \<in> measure (\<lambda>(fence, s). length s)" by simp
next
  fix f c :: char and fs cs r :: string
  assume "strip_prefix (f # fs) (c # cs) = Some r"
  then have "length r < length (c # cs)"
    using strip_prefix_length by fastforce
  moreover have "length (drop_newline r) \<le> length r" by (rule drop_newline_length)
  ultimately show "((f # fs, drop_newline r), (f # fs, c # cs)) \<in> measure (\<lambda>(fence, s). length s)"
    by simp
qed

text \<open>
  \<^verbatim>\<open>s.trim()\<close>.  The white space and line terminators of JavaScript with a code below 256:
  tab, line feed, vertical tab, form feed, carriage return, space, no-break space.
\<close>

definition is_space :: "char \<Rightarrow> bool" where
  "is_space c = (c \<in> set [CHR 0x09, CHR 0x0A, CHR 0x0B, CHR 0x0C, CHR 0x0D, CHR 0x20, CHR 0xA0])"

definition trim :: "string \<Rightarrow> string" where
  "trim s = rev (dropWhile is_space (rev (dropWhile is_space s)))"

text \<open>\<^verbatim>\<open>[...new Set(xs)]\<close>: the distinct elements in the order of their first occurrence.\<close>

definition set_add :: "'a list \<Rightarrow> 'a \<Rightarrow> 'a list" where
  "set_add seen x = (if x \<in> set seen then seen else seen @ [x])"

definition spread_set :: "'a list \<Rightarrow> 'a list" where
  "spread_set xs = foldl set_add [] xs"

section \<open>The store and the text-generation service\<close>

text \<open>
  The Supabase client resolves every query to a pair \<^verbatim>\<open>{ data, error }\<close>; the handlers read
  \<^verbatim>\<open>code\<close> and \<^verbatim>\<open>message\<close> of an error.
\<close>

record PostgrestError =
  code :: string
  message :: string

record 'r insert_response =
  data :: "'r list option"
  error :: "PostgrestError option"

text \<open>
  The answer to \<^verbatim>\<open>select('group_name').not('group_name', 'is', null)\<close>: each item is the
  \<^verbatim>\<open>group_name\<close> column of a row, a string or \<^verbatim>\<open>null\<close>.
\<close>

record select_response =
  existingGroupsData :: "string option list option"
  groupError :: "PostgrestError option"

text \<open>A word as the client submits it; \<^verbatim>\<open>synonyms\<close> may be absent.\<close>

record NewWord =
  word :: string
  meaning :: string
  synonyms :: "string list option"

text \<open>The row the bulk route hands to \<^verbatim>\<open>insert\<close>.\<close>

record Row =
  row_word :: string
  row_meaning :: string
  row_synonyms :: "string list"
  group_name :: "jsval option"
  sentence :: "jsval option"

text \<open>
  The text-generation service is a function from the prompt to its reply; \<open>None\<close> stands
  for a call that fails (\<^verbatim>\<open>generateContent\<close>, \<^verbatim>\<open>result.response\<close> or \<^verbatim>\<open>response.text()\<close>
  throws).  \<^verbatim>\<open>JSON.parse\<close> is a function from the text to the parsed value, \<open>None\<close> when it
  throws a \<^verbatim>\<open>SyntaxError\<close>.  Both are parameters of the handlers below.
\<close>

type_synonym generate_content = "string \<Rightarrow> string option"

type_synonym json_parse = "string \<Rightarrow> jsval option"

section \<open>The helper \<^verbatim>\<open>getGroupNamesAndSentences\<close>\<close>

definition existing_groups_text :: "string list \<Rightarrow> string" where
  \<open>existing_groups_text existingGroups =
     (if length existingGroups > 0
      then join [newline] (map (\<lambda>g. ''- "'' @ g @ ''"'') existingGroups)
      else ''No existing groups yet'')\<close>

definition new_words_text :: "NewWord list \<Rightarrow> string" where
  \<open>new_words_text newWords =
     join [newline]
       (map (\<lambda>w. ''Word: "'' @ word w @ ''" - Meaning: "'' @ meaning w @ ''"'') newWords)\<close>

definition prompt :: "NewWord list \<Rightarrow> string list \<Rightarrow> string" where
  \<open>prompt newWords existingGroups = join [newline]
    [''You are a vocabulary assistant. Your task is to:'',
     ''1. Assign group names to words based on their meanings'',
     ''2. Create example sentences showing proper usage of each word'',
     [],
     ''Existing groups in database:'',
     existing_groups_text existingGroups,
     [],
     ''New words to categorize:'',
     new_words_text newWords,
     [],
     ''Rules for grouping:'',
     ''1. If a word's meaning matches an existing group, assign it to that group'',
     ''2. If no existing group matches, create a NEW simple group name (2-4 words max)'',
     ''3. Group names should be simple like "feeling happy", "movement verbs", "time related", etc.'',
     ''4. Multiple words with similar meanings should get the SAME group name'',
     [],
     ''Rules for sentences:'',
     ''1. Create ONE clear, natural sentence for each word'',
     ''2. The sentence should demonstrate the word's meaning in context'',
     ''3. Keep sentences simple and easy to understand (10-20 words)'',
     ''4. Use the exact word provided (match the case)'',
     [],
     ''Return ONLY a valid JSON array with this exact structure:'',
     ''['',
     ''  {'',
     ''    "word": "word1",'',
     ''    "group_name": "simple group name",'',
     ''    "sentence": "A clear example sentence using word1 in context."'',
     ''  },'',
     ''  {'',
     ''    "word": "word2", '',
     ''    "group_name": "simple group name",'',
     ''    "sentence": "A clear example sentence using word2 in context."'',
     ''  }'',
     '']'',
     [],
     ''Return ONLY the JSON array, no other text.'']\<close>

text \<open>\<^verbatim>\<open>responseText.replace(/```json\n?/g, '').replace(/```\n?/g, '').trim()\<close>\<close>

definition cleanedText :: "string \<Rightarrow> string" where
  "cleanedText responseText =
     trim (replace_fence ''```'' (replace_fence ''```json'' responseText))"

text \<open>The fallback of the \<^verbatim>\<open>catch\<close> block: every new word without group and sentence.\<close>

definition fallback :: "NewWord list \<Rightarrow> jsval" where
  "fallback newWords =
     JArr (map (\<lambda>w. JObj [(''word'', JStr (word w)), (''group_name'', JNull), (''sentence'', JNull)])
            newWords)"

text \<open>What the handlers write to the console.\<close>

datatype ai_failure = CallFailed | ParseFailed

datatype log_event =
    ErrorFetchingGroups PostgrestError
  | ExistingGroups "string list"
  | ErrorFromAI ai_failure
  | AIAssignments jsval

text \<open>
  The helper returns the parsed reply as it is; when the call or \<^verbatim>\<open>JSON.parse\<close> throws, it
  logs the error and returns the fallback.  The \<^verbatim>\<open>catch\<close> block itself cannot throw on
  words of type \<open>NewWord\<close>, so the helper always returns.
\<close>

definition getGroupNamesAndSentences ::
  "json_parse \<Rightarrow> generate_content \<Rightarrow> NewWord list \<Rightarrow> string list \<Rightarrow> jsval \<times> log_event list" where
  "getGroupNamesAndSentences parse generateContent newWords existingGroups =
     (case generateContent (prompt newWords existingGroups) of
        None \<Rightarrow> (fallback newWords, [ErrorFromAI CallFailed])
      | Some responseText \<Rightarrow>
          (case parse (cleanedText responseText) of
             None \<Rightarrow> (fallback newWords, [ErrorFromAI ParseFailed])
           | Some assignments \<Rightarrow> (assignments, [])))"

section \<open>The bulk route with grouping and sentences\<close>

text \<open>
  \<^verbatim>\<open>existingGroupsData ? [...new Set(existingGroupsData.map(item => item.group_name)
  .filter(Boolean))] : []\<close>; \<^verbatim>\<open>filter(Boolean)\<close> drops \<^verbatim>\<open>null\<close> and the empty string.
\<close>

definition existingGroups :: "select_response \<Rightarrow> string list" where
  "existingGroups r =
     (case existingGroupsData r of
        None \<Rightarrow> []
      | Some items \<Rightarrow> spread_set (filter (\<lambda>g. g \<noteq> []) (List.map_filter (\<lambda>item. item) items)))"

text \<open>
  Reading one of the properties \<^verbatim>\<open>word\<close>, \<^verbatim>\<open>group_name\<close>, \<^verbatim>\<open>sentence\<close> of a value: a
  \<^verbatim>\<open>TypeError\<close> on \<^verbatim>\<open>null\<close>, the own property of an object, and \<^verbatim>\<open>undefined\<close> on everything
  else (booleans, numbers, strings and arrays have no property of these names).
\<close>

fun read_property :: "jsval \<Rightarrow> string \<Rightarrow> js_exception + jsval option" where
  "read_property JNull k = Inl TypeError"
| "read_property (JObj props) k = Inr (map_of props k)"
| "read_property v k = Inr None"

text \<open>
  \<^verbatim>\<open>assignments.find(a => a.word === word.word)\<close>.  Only an array has \<^verbatim>\<open>find\<close>; on any
  other value the call throws.  On an array the elements are tried from the left; the
  callback throws on a \<^verbatim>\<open>null\<close> element.
\<close>

fun find_in_array :: "jsval list \<Rightarrow> string \<Rightarrow> js_exception + jsval option" where
  "find_in_array [] w = Inr None"
| "find_in_array (a # rest) w =
     (case read_property a ''word'' of
        Inl e \<Rightarrow> Inl e
      | Inr v \<Rightarrow> if v = Some (JStr w) then Inr (Some a) else find_in_array rest w)"

definition find_assignment :: "jsval \<Rightarrow> string \<Rightarrow> js_exception + jsval option" where
  "find_assignment assignments w =
     (case assignments of JArr elems \<Rightarrow> find_in_array elems w | _ \<Rightarrow> Inl TypeError)"

text \<open>
  \<^verbatim>\<open>assignment ? assignment.group_name : null\<close>, and the same for the sentence.  A found
  assignment is an object, so the read does not throw.
\<close>

definition assigned :: "jsval option \<Rightarrow> string \<Rightarrow> jsval option" where
  "assigned assignment k =
     (case assignment of
        None \<Rightarrow> Some JNull
      | Some a \<Rightarrow> (case read_property a k of Inl e \<Rightarrow> None | Inr v \<Rightarrow> v))"

definition insert_row :: "NewWord \<Rightarrow> jsval option \<Rightarrow> Row" where
  "insert_row w assignment =
     \<lparr> row_word = word w,
       row_meaning = meaning w,
       row_synonyms = (case synonyms w of None \<Rightarrow> [] | Some s \<Rightarrow> s),
       group_name = assigned assignment ''group_name'',
       sentence = assigned assignment ''sentence'' \<rparr>"

record 'r results =
  added :: "'r list"
  skipped :: "string list"
  errors :: "(string \<times> error_message) list"

definition no_results :: "'r results" where
  "no_results = \<lparr> added = [], skipped = [], errors = [] \<rparr>"

text \<open>\<^verbatim>\<open>error.code === '23505' || error.message.includes('duplicate')\<close>\<close>

definition is_duplicate :: "PostgrestError \<Rightarrow> bool" where
  "is_duplicate e = (code e = ''23505'' \<or> js_includes (message e) ''duplicate'')"

text \<open>The branches on the answer of the insertion (lines 145 to 156).\<close>

definition record_outcome :: "NewWord \<Rightarrow> 'r insert_response \<Rightarrow> 'r results \<Rightarrow> 'r results" where
  "record_outcome w r res =
     (case error r of
        Some e \<Rightarrow>
          if is_duplicate e
          then res\<lparr>skipped := skipped res @ [word w]\<rparr>
          else res\<lparr>errors := errors res @ [(word w, Message (message e))]\<rparr>
      | None \<Rightarrow>
          (case data r of
             Some (d # ds) \<Rightarrow> res\<lparr>added := added res @ [d]\<rparr>
           | _ \<Rightarrow> res))"

text \<open>
  One iteration of \<^verbatim>\<open>for (const word of words)\<close>.  The store is a state \<open>'st\<close> with an
  insertion \<open>ins\<close> that answers and moves to the next state.  An exception of the lookup is
  caught by the iteration's own \<^verbatim>\<open>catch\<close>; no insertion is attempted then.
\<close>

type_synonym ('st, 'r) insert_op = "'st \<Rightarrow> Row \<Rightarrow> 'r insert_response \<times> 'st"

definition process_word ::
  "('st, 'r) insert_op \<Rightarrow> jsval \<Rightarrow> 'r results \<times> 'st \<Rightarrow> NewWord \<Rightarrow> 'r results \<times> 'st" where
  "process_word ins assignments acc w =
     (case acc of (res, st) \<Rightarrow>
        (case find_assignment assignments (word w) of
           Inl err \<Rightarrow> (res\<lparr>errors := errors res @ [(word w, MessageOf err)]\<rparr>, st)
         | Inr assignment \<Rightarrow>
             (case ins st (insert_row w assignment) of
                (r, st') \<Rightarrow> (record_outcome w r res, st'))))"

definition process_words ::
  "('st, 'r) insert_op \<Rightarrow> jsval \<Rightarrow> NewWord list \<Rightarrow> 'r results \<times> 'st \<Rightarrow> 'r results \<times> 'st" where
  "process_words ins assignments words acc = foldl (process_word ins assignments) acc words"

text \<open>
  \<^verbatim>\<open>assignments.length > 0\<close>.  An array and a string have a length; \<^verbatim>\<open>null\<close> throws; a
  boolean and a number have none, and \<^verbatim>\<open>undefined > 0\<close> is false.  An object may have an own
  property \<^verbatim>\<open>length\<close> of any value \<open>v\<close>; the comparison \<^verbatim>\<open>v > 0\<close> of the runtime is the
  parameter \<open>gt_zero\<close>.
\<close>

type_synonym greater_zero = "jsval \<Rightarrow> js_exception + bool"

definition length_greater_zero :: "greater_zero \<Rightarrow> jsval \<Rightarrow> js_exception + bool" where
  "length_greater_zero gt_zero assignments =
     (case assignments of
        JArr elems \<Rightarrow> Inr (length elems > 0)
      | JStr s \<Rightarrow> Inr (length s > 0)
      | JNull \<Rightarrow> Inl TypeError
      | JObj props \<Rightarrow> (case map_of props ''length'' of None \<Rightarrow> Inr False | Some v \<Rightarrow> gt_zero v)
      | _ \<Rightarrow> Inr False)"

text \<open>
  The answers of the route: 400 with its error text, 201 with the summary (its constant
  \<^verbatim>\<open>message\<close> is left out), and 500 of the outermost \<^verbatim>\<open>catch\<close> with \<^verbatim>\<open>err.message\<close>.
\<close>

record 'r summary =
  totalSent :: nat
  addedCount :: nat
  skippedCount :: nat
  errorCount :: nat
  aiProcessingUsed :: bool
  results :: "'r results"

datatype 'r response =
    BadRequest string
  | Created "'r summary"
  | ServerError error_message

text \<open>
  \<^verbatim>\<open>POST /api/vocabulary/bulk\<close>.  \<open>sel\<close> is the read of the group names in the current store.
  The handler answers, leaves the store in a new state and has written a log.  A body whose
  \<^verbatim>\<open>words\<close> is not an array is outside the type; the empty array is refused.  The helper
  always returns, so the route's own \<^verbatim>\<open>catch\<close> around its call, which would leave
  \<^verbatim>\<open>assignments\<close> the empty array, is never entered.
\<close>

definition vocabulary_bulk ::
  "json_parse \<Rightarrow> greater_zero \<Rightarrow> generate_content \<Rightarrow> ('st \<Rightarrow> select_response) \<Rightarrow>
   ('st, 'r) insert_op \<Rightarrow> NewWord list \<Rightarrow> 'st \<Rightarrow> 'r response \<times> 'st \<times> log_event list" where
  "vocabulary_bulk parse gt_zero generateContent sel ins words st =
     (if length words = 0 then (BadRequest ''Invalid input. Expected words array.'', st, [])
      else
        let answer = sel st;
            log1 = (case groupError answer of Some e \<Rightarrow> [ErrorFetchingGroups e] | None \<Rightarrow> []);
            groups = existingGroups answer;
            (assignments, log2) = getGroupNamesAndSentences parse generateContent words groups;
            console = log1 @ [ExistingGroups groups] @ log2 @ [AIAssignments assignments];
            (res, st') = process_words ins assignments words (no_results, st)
        in (case length_greater_zero gt_zero assignments of
              Inl err \<Rightarrow> (ServerError (MessageOf err), st', console)
            | Inr used \<Rightarrow>
                (Created \<lparr> totalSent = length words,
                           addedCount = length (added res),
                           skippedCount = length (skipped res),
                           errorCount = length (errors res),
                           aiProcessingUsed = used,
                           results = res \<rparr>, st', console)))"

subsection \<open>A store with a unique word column\<close>

text \<open>The error of a unique-constraint violation, with the code 23505 of PostgreSQL.\<close>

definition unique_violation :: PostgrestError where
  "unique_violation =
     \<lparr> code = ''23505'', message = ''duplicate key value violates unique constraint'' \<rparr>"

text \<open>
  Modelled from the spec: the durable store, which is outside the repository.  Its contract
  is that \<^verbatim>\<open>word\<close> is unique and enforced by the store, and that an insertion answers
  with the persisted entry, or with a duplicate conflict (the unique-constraint violation)
  that leaves the table as it was.  The table is the list of the persisted rows; this store
  never fails in another way.
\<close>

definition unique_insert :: "(Row list, Row) insert_op" where
  "unique_insert table row =
     (if row_word row \<in> set (map row_word table)
      then (\<lparr> data = None, error = Some unique_violation \<rparr>, table)
      else (\<lparr> data = Some [row], error = None \<rparr>, table @ [row]))"

section \<open>The bulk route in batches of 50 (server.js)\<close>







section \<open>The groups view\<close>

text \<open>A row of the table as a read returns it: the label and the sentence are text or null.\<close>

record Entry =
  entry_word :: string
  entry_meaning :: string
  entry_synonyms :: "string list"
  entry_group_name :: "string option"
  entry_sentence :: "string option"

record 'r query_response =
  query_data :: "'r list option"
  query_error :: "PostgrestError option"

text \<open>
  The query of the route,
  \<^verbatim>\<open>select(...).not('group_name', 'is', null).order('group_name', { ascending: true })\<close>,
  on a table: the rows with a label, in the order the database gives them (its collation
  and its order among equal labels are the parameter \<open>ordered\<close>).
\<close>

definition groups_query :: "(Entry list \<Rightarrow> Entry list) \<Rightarrow> Entry list \<Rightarrow> Entry query_response" where
  "groups_query ordered table =
     \<lparr> query_data = Some (ordered (filter (\<lambda>e. entry_group_name e \<noteq> None) table)),
       query_error = None \<rparr>"

text \<open>The member of a group: the row without its label.\<close>

record Member =
  member_word :: string
  member_meaning :: string
  member_synonyms :: "string list"
  member_sentence :: "string option"

definition member_of :: "Entry \<Rightarrow> Member" where
  "member_of e =
     \<lparr> member_word = entry_word e,
       member_meaning = entry_meaning e,
       member_synonyms = entry_synonyms e,
       member_sentence = entry_sentence e \<rparr>"

text \<open>
  \<^verbatim>\<open>const groups = {}\<close> is an object with the prototype \<^verbatim>\<open>Object.prototype\<close>: the map holds
  its own properties, and a read of a name it does not own finds the property of that name
  of the prototype, a function (for \<^verbatim>\<open>__proto__\<close> the prototype itself).  A label that is
  \<^verbatim>\<open>null\<close> reads the key \<^verbatim>\<open>"null"\<close>.
\<close>

definition object_prototype_names :: "string list" where
  "object_prototype_names =
     [''constructor'', ''__defineGetter__'', ''__defineSetter__'', ''hasOwnProperty'',
      ''__lookupGetter__'', ''__lookupSetter__'', ''isPrototypeOf'', ''propertyIsEnumerable'',
      ''toString'', ''valueOf'', ''__proto__'', ''toLocaleString'']"

definition property_key :: "string option \<Rightarrow> string" where
  "property_key label = (case label of None \<Rightarrow> ''null'' | Some s \<Rightarrow> s)"

type_synonym groups = "string \<rightharpoonup> Member list"

text \<open>
  The callback of \<^verbatim>\<open>data.forEach\<close>.  When \<^verbatim>\<open>groups[key]\<close> is the group's own array the
  member is pushed; when the name is not owned and the prototype has none either, the array
  is created first; when the prototype has it, the value is truthy, no array is created, and
  \<^verbatim>\<open>push\<close> is not a function.
\<close>

definition add_member :: "groups \<Rightarrow> Entry \<Rightarrow> js_exception + groups" where
  "add_member groups e =
     (let key = property_key (entry_group_name e) in
      case groups key of
        Some members \<Rightarrow> Inr (groups(key \<mapsto> members @ [member_of e]))
      | None \<Rightarrow>
          if key \<in> set object_prototype_names then Inl TypeError
          else Inr (groups(key \<mapsto> [member_of e])))"

fun for_each :: "groups \<Rightarrow> Entry list \<Rightarrow> js_exception + groups" where
  "for_each groups [] = Inr groups"
| "for_each groups (e # es) =
     (case add_member groups e of
        Inl err \<Rightarrow> Inl err
      | Inr groups' \<Rightarrow> for_each groups' es)"

datatype groups_response =
    GroupsError string
  | Groups groups
  | GroupsFailed error_message

text \<open>\<^verbatim>\<open>GET /api/vocabulary/groups\<close>, on the answer of the store.\<close>

definition vocabulary_groups :: "Entry query_response \<Rightarrow> groups_response" where
  "vocabulary_groups answer =
     (case query_error answer of
        Some e \<Rightarrow> GroupsError (message e)
      | None \<Rightarrow>
          (case query_data answer of
             None \<Rightarrow> GroupsFailed (MessageOf TypeError)
           | Some rows \<Rightarrow>
               (case for_each Map.empty rows of
                  Inl err \<Rightarrow> GroupsFailed (MessageOf err)
                | Inr groups \<Rightarrow> Groups groups)))"

section \<open>Derived notions and sample inputs\<close>

text \<open>The value of \<^verbatim>\<open>assignments\<close> in a run of the bulk route.\<close>

definition assignments_for ::
  "json_parse \<Rightarrow> generate_content \<Rightarrow> ('st \<Rightarrow> select_response) \<Rightarrow> NewWord list \<Rightarrow> 'st \<Rightarrow> jsval" where
  "assignments_for parse generateContent sel words st =
     fst (getGroupNamesAndSentences parse generateContent words (existingGroups (sel st)))"

text \<open>
  What happens to each word of a batch, in order: the exception of its lookup, or the answer
  of its insertion.  The store moves on with every insertion.
\<close>

fun attempts ::
  "('st, 'r) insert_op \<Rightarrow> jsval \<Rightarrow> NewWord list \<Rightarrow> 'st \<Rightarrow> (js_exception + 'r insert_response) list" where
  "attempts ins assignments [] st = []"
| "attempts ins assignments (w # ws) st =
     (case find_assignment assignments (word w) of
        Inl err \<Rightarrow> Inl err # attempts ins assignments ws st
      | Inr a \<Rightarrow>
          (case ins st (insert_row w a) of
             (r, st') \<Rightarrow> Inr r # attempts ins assignments ws st'))"

text \<open>
  What one attempt puts in each of the three lists: the first returned row of an insertion
  without error in \<^verbatim>\<open>added\<close>; the word in \<^verbatim>\<open>skipped\<close> when the error has the code 23505 or
  ``duplicate'' in its message; the word with the message in \<^verbatim>\<open>errors\<close> for every other
  error and for an exception of the lookup.  An attempt is silent when the insertion
  answers without error and without a row.
\<close>

definition to_added :: "js_exception + 'r insert_response \<Rightarrow> 'r list" where
  "to_added t =
     (case t of
        Inl err \<Rightarrow> []
      | Inr r \<Rightarrow>
          (case error r of
             Some e \<Rightarrow> []
           | None \<Rightarrow> (case data r of Some (d # ds) \<Rightarrow> [d] | _ \<Rightarrow> [])))"

definition to_skipped :: "NewWord \<Rightarrow> js_exception + 'r insert_response \<Rightarrow> string list" where
  "to_skipped w t =
     (case t of
        Inl err \<Rightarrow> []
      | Inr r \<Rightarrow>
          (case error r of
             Some e \<Rightarrow>
               if code e = ''23505'' \<or> js_includes (message e) ''duplicate'' then [word w] else []
           | None \<Rightarrow> []))"

definition to_errors ::
  "NewWord \<Rightarrow> js_exception + 'r insert_response \<Rightarrow> (string \<times> error_message) list" where
  "to_errors w t =
     (case t of
        Inl err \<Rightarrow> [(word w, MessageOf err)]
      | Inr r \<Rightarrow>
          (case error r of
             Some e \<Rightarrow>
               if code e = ''23505'' \<or> js_includes (message e) ''duplicate'' then []
               else [(word w, Message (message e))]
           | None \<Rightarrow> []))"

definition silent :: "js_exception + 'r insert_response \<Rightarrow> bool" where
  "silent t =
     (case t of
        Inl err \<Rightarrow> False
      | Inr r \<Rightarrow>
          (case error r of
             Some e \<Rightarrow> False
           | None \<Rightarrow> (case data r of Some (d # ds) \<Rightarrow> False | _ \<Rightarrow> True)))"

text \<open>No lookup of a word of the batch throws.\<close>

definition lookups_succeed :: "jsval \<Rightarrow> NewWord list \<Rightarrow> bool" where
  "lookups_succeed assignments words =
     list_all (\<lambda>w. case find_assignment assignments (word w) of Inl err \<Rightarrow> False | Inr a \<Rightarrow> True)
       words"

text \<open>An answer of the store that reports an error or returns at least one row.\<close>

definition answers_outcome :: "'r insert_response \<Rightarrow> bool" where
  "answers_outcome r =
     (case error r of
        Some e \<Rightarrow> True
      | None \<Rightarrow> (case data r of Some (d # ds) \<Rightarrow> True | _ \<Rightarrow> False))"

text \<open>
  Inputs for the examples.  \<open>parse_sample\<close> agrees with \<^verbatim>\<open>JSON.parse\<close> on the one text the
  examples give it: \<^verbatim>\<open>{}\<close> is the empty object.  \<open>gt_zero_sample\<close> is \<^verbatim>\<open>v > 0\<close> on
  booleans and numbers; no example has an object with a \<^verbatim>\<open>length\<close>, so it is never
  consulted.
\<close>

definition parse_sample :: json_parse where
  "parse_sample text = (if text = ''{}'' then Some (JObj []) else None)"

definition gt_zero_sample :: greater_zero where
  "gt_zero_sample v = (case v of JNum n \<Rightarrow> Inr (0 < n) | JBool b \<Rightarrow> Inr b | _ \<Rightarrow> Inr False)"

definition service_down :: generate_content where
  "service_down p = None"

definition fenced_braces :: generate_content where
  "fenced_braces p = Some ''```json\<newline>{}\<newline>```''"

definition no_groups :: "'st \<Rightarrow> select_response" where
  "no_groups st = \<lparr> existingGroupsData = Some [], groupError = None \<rparr>"

definition read_failure :: PostgrestError where
  "read_failure = \<lparr> code = ''PGRST301'', message = ''connection refused'' \<rparr>"

definition groups_unreadable :: "'st \<Rightarrow> select_response" where
  "groups_unreadable st = \<lparr> existingGroupsData = None, groupError = Some read_failure \<rparr>"

definition cat :: NewWord where
  "cat = \<lparr> word = ''cat'', meaning = ''a small pet'', synonyms = None \<rparr>"

definition dog :: NewWord where
  "dog = \<lparr> word = ''dog'', meaning = ''a loyal pet'', synonyms = Some [''hound''] \<rparr>"

definition cat_row :: Row where
  "cat_row = \<lparr> row_word = ''cat'', row_meaning = ''a small pet'', row_synonyms = [],
               group_name = Some JNull, sentence = Some JNull \<rparr>"

definition dog_row :: Row where
  "dog_row = \<lparr> row_word = ''dog'', row_meaning = ''a loyal pet'', row_synonyms = [''hound''],
               group_name = Some JNull, sentence = Some JNull \<rparr>"

text \<open>A failure that is no unique-constraint violation, with ``duplicate'' in its message.\<close>

definition foreign_key_failure :: PostgrestError where
  "foreign_key_failure = \<lparr> code = ''23503'', message = ''found duplicate reference'' \<rparr>"

definition timeout_error :: PostgrestError where
  "timeout_error =
     \<lparr> code = ''57014'', message = ''canceling statement due to statement timeout'' \<rparr>"

text \<open>A store that answers every insertion without error and without rows.\<close>

definition silent_insert :: "(unit, Row) insert_op" where
  "silent_insert st row = (\<lparr> data = Some [], error = None \<rparr>, st)"

text \<open>A store that rejects every insertion with the same error.\<close>

definition rejecting_insert :: "PostgrestError \<Rightarrow> (unit, Row) insert_op" where
  "rejecting_insert e st row = (\<lparr> data = None, error = Some e \<rparr>, st)"

text \<open>
  A store whose answers change from call to call; the state counts the calls.  The first
  insertion is answered without error and without rows, the second fails with a timeout,
  the third with a unique-constraint violation, and every later one returns the row.
\<close>

definition moody_insert :: "(nat, Row) insert_op" where
  "moody_insert calls row =
     (if calls = 0 then (\<lparr> data = Some [], error = None \<rparr>, Suc calls)
      else if calls = 1 then (\<lparr> data = None, error = Some timeout_error \<rparr>, Suc calls)
      else if calls = 2 then (\<lparr> data = None, error = Some unique_violation \<rparr>, Suc calls)
      else (\<lparr> data = Some [row], error = None \<rparr>, Suc calls))"




text \<open>The members of the group \<open>k\<close> among fetched rows, in their order.\<close>

definition group_members :: "Entry list \<Rightarrow> string \<Rightarrow> Member list" where
  "group_members rows k = map member_of (filter (\<lambda>e. entry_group_name e = Some k) rows)"

text \<open>A row whose label is the name of a property of \<^verbatim>\<open>Object.prototype\<close>.\<close>

definition mason :: Entry where
  "mason = \<lparr> entry_word = ''mason'', entry_meaning = ''a builder in stone'', entry_synonyms = [],
             entry_group_name = Some ''constructor'', entry_sentence = None \<rparr>"

section \<open>Strings and the loop\<close>

lemma strip_prefix_Some: "strip_prefix p s = Some r \<longleftrightarrow> s = p @ r"
  by (induction p s rule: strip_prefix.induct) auto

lemma strip_prefix_None: "strip_prefix p s = None \<longleftrightarrow> (\<forall>r. s \<noteq> p @ r)"
  using strip_prefix_Some [of p s] by (cases "strip_prefix p s") auto

lemma js_includes_iff: "js_includes s sub \<longleftrightarrow> (\<exists>pre post. s = pre @ sub @ post)"
proof (induction s)
  case Nil
  then show ?case by auto
next
  case (Cons c cs)
  show ?case
  proof (cases "strip_prefix sub (c # cs)")
    case (Some r)
    then have "c # cs = [] @ sub @ r" by (simp add: strip_prefix_Some)
    then have "\<exists>pre post. c # cs = pre @ sub @ post" by blast
    with Some show ?thesis by simp
  next
    case None
    then have no: "\<And>r. c # cs \<noteq> sub @ r" by (simp add: strip_prefix_None)
    have "(\<exists>pre post. c # cs = pre @ sub @ post) \<longleftrightarrow> (\<exists>pre post. cs = pre @ sub @ post)"
    proof
      assume "\<exists>pre post. c # cs = pre @ sub @ post"
      then obtain pre post where eq: "c # cs = pre @ sub @ post" by blast
      show "\<exists>pre post. cs = pre @ sub @ post"
      proof (cases pre)
        case Nil
        with eq no show ?thesis by auto
      next
        case (Cons a pre')
        with eq have "cs = pre' @ sub @ post" by simp
        then show ?thesis by blast
      qed
    next
      assume "\<exists>pre post. cs = pre @ sub @ post"
      then obtain pre post where "cs = pre @ sub @ post" by blast
      then have "c # cs = (c # pre) @ sub @ post" by simp
      then show "\<exists>pre post. c # cs = pre @ sub @ post" by blast
    qed
    with None Cons.IH show ?thesis by simp
  qed
qed

lemma cleaned_fenced_braces: "cleanedText ''```json\<newline>{}\<newline>```'' = ''{}''"
  by (simp add: cleanedText_def drop_newline_def newline_def trim_def is_space_def)

lemma process_words_Nil: "process_words ins asg [] acc = acc"
  by (simp add: process_words_def)

lemma process_words_Cons:
  "process_words ins asg (w # ws) acc = process_words ins asg ws (process_word ins asg acc w)"
  by (simp add: process_words_def)

lemma process_words_append:
  "process_words ins asg (xs @ ys) acc = process_words ins asg ys (process_words ins asg xs acc)"
  by (simp add: process_words_def)

lemma process_word_attempt:
  assumes "find_assignment asg (word w) = Inr a" and "ins st (insert_row w a) = (r, st')"
  shows "process_word ins asg (res, st) w = (record_outcome w r res, st')"
  using assms by (simp add: process_word_def)

lemma record_outcome_cases:
  "(\<exists>d. record_outcome w r res = res\<lparr>added := added res @ [d]\<rparr>) \<or>
   record_outcome w r res = res\<lparr>skipped := skipped res @ [word w]\<rparr> \<or>
   (\<exists>m. record_outcome w r res = res\<lparr>errors := errors res @ [(word w, m)]\<rparr>) \<or>
   record_outcome w r res = res"
  by (auto simp: record_outcome_def split: option.splits list.splits)

lemma record_outcome_silent:
  "error r = None \<Longrightarrow> data r = None \<or> data r = Some [] \<Longrightarrow> record_outcome w r res = res"
  by (auto simp: record_outcome_def)

lemma process_word_cases:
  assumes "process_word ins assignments (res, st) w = (res', st')"
  shows "(\<exists>d. res' = res\<lparr>added := added res @ [d]\<rparr>) \<or>
          res' = res\<lparr>skipped := skipped res @ [word w]\<rparr> \<or>
          (\<exists>m. res' = res\<lparr>errors := errors res @ [(word w, m)]\<rparr>) \<or>
          res' = res"
proof (cases "find_assignment assignments (word w)")
  case (Inl err)
  with assms have "res' = res\<lparr>errors := errors res @ [(word w, MessageOf err)]\<rparr>"
    by (simp add: process_word_def)
  then show ?thesis by blast
next
  case (Inr a)
  obtain r s where ans: "ins st (insert_row w a) = (r, s)" by (cases "ins st (insert_row w a)")
  with Inr assms have eq: "res' = record_outcome w r res"
    by (simp add: process_word_attempt)
  show ?thesis unfolding eq by (rule record_outcome_cases)
qed

text \<open>The definitions an evaluation of the bulk route on a sample unfolds.\<close>

lemmas bulk_eval =
  vocabulary_bulk_def getGroupNamesAndSentences_def service_down_def no_groups_def
  existingGroups_def spread_set_def List.map_filter_def length_greater_zero_def
  process_words_def process_word_def fallback_def find_assignment_def record_outcome_def
  no_results_def insert_row_def assigned_def

section \<open>Classification of a failed insertion\<close>

text \<open>
  C9.  When the insertion of a word is attempted and the store answers with an error, the
  word is appended to \<^verbatim>\<open>skipped\<close> if and only if the error's code is 23505 or its message
  contains ``duplicate'' as a substring; otherwise the pair of the word and the error's
  message is appended to \<^verbatim>\<open>errors\<close>.  So a failure that is no unique-constraint violation
  is reported as skipped when its message happens to contain ``duplicate''.
\<close>

theorem duplicate_classification:
  assumes "find_assignment assignments (word w) = Inr a"
      and "ins st (insert_row w a) = (r, st')"
      and "error r = Some e"
  shows "process_word ins assignments (res, st) w =
           (if code e = ''23505'' \<or> (\<exists>pre post. message e = pre @ ''duplicate'' @ post)
            then (res\<lparr>skipped := skipped res @ [word w]\<rparr>, st')
            else (res\<lparr>errors := errors res @ [(word w, Message (message e))]\<rparr>, st'))"
proof -
  have "is_duplicate e \<longleftrightarrow>
          code e = ''23505'' \<or> (\<exists>pre post. message e = pre @ ''duplicate'' @ post)"
    by (simp only: is_duplicate_def js_includes_iff)
  then show ?thesis
    using assms by (simp add: process_word_attempt record_outcome_def)
qed

theorem duplicate_classification_witness:
  "process_word (rejecting_insert foreign_key_failure) (JArr []) (no_results, ()) cat
   = (\<lparr> added = [], skipped = [''cat''], errors = [] \<rparr>, ())"
proof -
  have inc: "\<exists>pre post. message foreign_key_failure = pre @ ''duplicate'' @ post"
    unfolding js_includes_iff [symmetric] by (simp add: foreign_key_failure_def)
  have look: "find_assignment (JArr []) (word cat) = Inr None"
    by (simp add: find_assignment_def)
  have ans: "rejecting_insert foreign_key_failure () (insert_row cat None)
               = (\<lparr> data = None, error = Some foreign_key_failure \<rparr>, ())"
    by (simp add: rejecting_insert_def)
  from duplicate_classification [of "JArr []" cat None "rejecting_insert foreign_key_failure" "()"
         "\<lparr> data = None, error = Some foreign_key_failure \<rparr>" "()" foreign_key_failure
         no_results]
    look ans inc
  show ?thesis
    by (simp add: no_results_def cat_def)
qed

section \<open>One iteration of the merge loop\<close>

text \<open>
  C8.  One iteration of the loop over the words appends to at most one of the lists
  \<^verbatim>\<open>added\<close>, \<^verbatim>\<open>skipped\<close>, \<^verbatim>\<open>errors\<close>: it appends one row to \<^verbatim>\<open>added\<close>, or its word to
  \<^verbatim>\<open>skipped\<close>, or its word with a message to \<^verbatim>\<open>errors\<close>, or nothing.  When the insertion
  reports no error and returns an empty or null row set, the word is appended to none.
\<close>

theorem iteration_appends_at_most_once:
  assumes "process_word ins assignments (res, st) w = (res', st')"
  shows "((\<exists>d. res' = res\<lparr>added := added res @ [d]\<rparr>) \<or>
          res' = res\<lparr>skipped := skipped res @ [word w]\<rparr> \<or>
          (\<exists>m. res' = res\<lparr>errors := errors res @ [(word w, m)]\<rparr>) \<or>
          res' = res) \<and>
         (\<forall>a r s. find_assignment assignments (word w) = Inr a \<longrightarrow>
                  ins st (insert_row w a) = (r, s) \<longrightarrow>
                  error r = None \<longrightarrow> (data r = None \<or> data r = Some []) \<longrightarrow> res' = res)"
proof
  show "(\<exists>d. res' = res\<lparr>added := added res @ [d]\<rparr>) \<or>
          res' = res\<lparr>skipped := skipped res @ [word w]\<rparr> \<or>
          (\<exists>m. res' = res\<lparr>errors := errors res @ [(word w, m)]\<rparr>) \<or>
          res' = res"
    using assms by (rule process_word_cases)
next
  show "\<forall>a r s. find_assignment assignments (word w) = Inr a \<longrightarrow>
                  ins st (insert_row w a) = (r, s) \<longrightarrow>
                  error r = None \<longrightarrow> (data r = None \<or> data r = Some []) \<longrightarrow> res' = res"
  proof (intro allI impI)
    fix a r s
    assume "find_assignment assignments (word w) = Inr a"
       and "ins st (insert_row w a) = (r, s)"
       and quiet: "error r = None" "data r = None \<or> data r = Some []"
    with assms have "res' = record_outcome w r res" by (simp add: process_word_attempt)
    with quiet show "res' = res" by (simp add: record_outcome_silent)
  qed
qed

theorem iteration_appends_at_most_once_witness:
  "process_word silent_insert (JArr []) (no_results, ()) cat = (no_results, ())"
proof -
  obtain res' st' where eq: "process_word silent_insert (JArr []) (no_results, ()) cat = (res', st')"
    by (cases "process_word silent_insert (JArr []) (no_results, ()) cat")
  have look: "find_assignment (JArr []) (word cat) = Inr None"
    by (simp add: find_assignment_def)
  have ans: "silent_insert () (insert_row cat None) = (\<lparr> data = Some [], error = None \<rparr>, ())"
    by (simp add: silent_insert_def)
  from iteration_appends_at_most_once [OF eq] look ans have "res' = no_results"
    by simp
  with eq show ?thesis by simp
qed

section \<open>The counts of the summary\<close>

lemma attempts_length: "length (attempts ins asg ws st) = length ws"
  by (induction ws arbitrary: st) (auto split: sum.splits prod.splits)

lemma record_outcome_placed:
  "record_outcome w r res =
     \<lparr> added = added res @ to_added (Inr r),
       skipped = skipped res @ to_skipped w (Inr r),
       errors = errors res @ to_errors w (Inr r) \<rparr>"
  by (auto simp: record_outcome_def to_added_def to_skipped_def to_errors_def is_duplicate_def
           split: option.splits list.splits)

lemma process_words_attempts:
  "\<exists>st'. process_words ins asg ws (res, st) =
     (\<lparr> added = added res @ concat (map to_added (attempts ins asg ws st)),
        skipped = skipped res @ concat (map2 to_skipped ws (attempts ins asg ws st)),
        errors = errors res @ concat (map2 to_errors ws (attempts ins asg ws st)) \<rparr>, st')"
proof (induction ws arbitrary: res st)
  case Nil
  then show ?case by (simp add: process_words_Nil)
next
  case (Cons w ws)
  show ?case
  proof (cases "find_assignment asg (word w)")
    case (Inl err)
    have step: "process_word ins asg (res, st) w
                  = (res\<lparr>errors := errors res @ [(word w, MessageOf err)]\<rparr>, st)"
      using Inl by (simp add: process_word_def)
    from Cons.IH [of "res\<lparr>errors := errors res @ [(word w, MessageOf err)]\<rparr>" st]
    show ?thesis
      using Inl by (auto simp: process_words_Cons step to_added_def to_skipped_def to_errors_def)
  next
    case (Inr a)
    obtain r s where ans: "ins st (insert_row w a) = (r, s)" by (cases "ins st (insert_row w a)")
    have step: "process_word ins asg (res, st) w = (record_outcome w r res, s)"
      using Inr ans by (rule process_word_attempt)
    from Cons.IH [of "record_outcome w r res" s]
    show ?thesis
      using Inr ans by (auto simp: process_words_Cons step record_outcome_placed)
  qed
qed

lemma one_list_or_none:
  "length (to_added t) + length (to_skipped w t) + length (to_errors w t)
     = (if silent t then 0 else 1)"
  by (auto simp: to_added_def to_skipped_def to_errors_def silent_def
           split: sum.splits option.splits list.splits)

lemma placed_total:
  "length ws = length tr \<Longrightarrow>
   length (concat (map to_added tr)) + length (concat (map2 to_skipped ws tr)) +
   length (concat (map2 to_errors ws tr)) + length (filter silent tr) = length ws"
proof (induction ws tr rule: list_induct2)
  case Nil
  then show ?case by simp
next
  case (Cons w ws t tr)
  then show ?case
    using one_list_or_none [of t w] by (simp split: if_splits)
qed

lemma answered_not_silent:
  assumes "\<forall>st row. answers_outcome (fst (ins st row))"
  shows "filter silent (attempts ins asg ws st) = []"
proof (induction ws arbitrary: st)
  case Nil
  then show ?case by simp
next
  case (Cons w ws)
  show ?case
  proof (cases "find_assignment asg (word w)")
    case (Inl err)
    with Cons.IH show ?thesis by (simp add: silent_def)
  next
    case (Inr a)
    obtain r s where ans: "ins st (insert_row w a) = (r, s)" by (cases "ins st (insert_row w a)")
    from assms have "answers_outcome (fst (ins st (insert_row w a)))" by blast
    with ans have "\<not> silent (Inr r)"
      by (auto simp: answers_outcome_def silent_def split: option.splits list.splits)
    with Inr ans Cons.IH show ?thesis by simp
  qed
qed

text \<open>What a 201 answer of the bulk route says about the run.\<close>

lemma vocabulary_bulk_Created:
  assumes "vocabulary_bulk parse gt_zero generateContent sel ins words st = (Created s, st', console)"
  shows "words \<noteq> []"
    and "process_words ins (assignments_for parse generateContent sel words st) words (no_results, st)
           = (results s, st')"
    and "totalSent s = length words"
    and "addedCount s = length (added (results s))"
    and "skippedCount s = length (skipped (results s))"
    and "errorCount s = length (errors (results s))"
    and "length_greater_zero gt_zero (assignments_for parse generateContent sel words st)
           = Inr (aiProcessingUsed s)"
  using assms
  by (auto simp: vocabulary_bulk_def assignments_for_def Let_def
           split: if_splits prod.splits sum.splits)

text \<open>
  C1, as stated, fails: with a store that answers an insertion without error and without
  rows, the one submitted word is in none of the three lists, and the 201 answer has
  \<^verbatim>\<open>totalSent\<close> 1 and all three counts 0.
\<close>

theorem summary_counts_counterexample:
  "vocabulary_bulk parse_sample gt_zero_sample service_down no_groups silent_insert [cat] ()
   = (Created \<lparr> totalSent = 1, addedCount = 0, skippedCount = 0, errorCount = 0,
                aiProcessingUsed = True, results = no_results \<rparr>,
      (),
      [ExistingGroups [], ErrorFromAI CallFailed, AIAssignments (fallback [cat])])"
  by (simp add: bulk_eval cat_def silent_insert_def)

text \<open>
  C1, amended.  For every batch the bulk route answers with its 201 summary, \<^verbatim>\<open>totalSent\<close>
  is the number of submitted words, and each submitted word has one attempt (its lookup and
  insertion).  The three lists hold, in the order of the words, exactly what the attempts
  put there, and an attempt puts its word in at most one list: in exactly one, unless the
  insertion answered without error and with an empty or null row set, and then in none.
  So \<^verbatim>\<open>addedCount + skippedCount + errorCount\<close> and the number of such silent attempts
  add up to \<^verbatim>\<open>totalSent\<close>; the sum of the three counts is at most \<^verbatim>\<open>totalSent\<close> and
  equals it when every insertion answers with an error or with at least one row.
\<close>

theorem summary_counts:
  assumes "vocabulary_bulk parse gt_zero generateContent sel ins words st = (Created s, st', console)"
  shows "let tried = attempts ins (assignments_for parse generateContent sel words st) words st in
         totalSent s = length words \<and>
         length tried = length words \<and>
         added (results s) = concat (map to_added tried) \<and>
         skipped (results s) = concat (map2 to_skipped words tried) \<and>
         errors (results s) = concat (map2 to_errors words tried) \<and>
         (\<forall>w t. length (to_added t) + length (to_skipped w t) + length (to_errors w t)
                  = (if silent t then 0 else 1)) \<and>
         addedCount s = length (added (results s)) \<and>
         skippedCount s = length (skipped (results s)) \<and>
         errorCount s = length (errors (results s)) \<and>
         addedCount s + skippedCount s + errorCount s + length (filter silent tried) = totalSent s \<and>
         addedCount s + skippedCount s + errorCount s \<le> totalSent s \<and>
         ((\<forall>t row. answers_outcome (fst (ins t row))) \<longrightarrow>
            addedCount s + skippedCount s + errorCount s = totalSent s)"
proof -
  note facts = vocabulary_bulk_Created [OF assms]
  let ?asg = "assignments_for parse generateContent sel words st"
  let ?tried = "attempts ins ?asg words st"
  have len: "length ?tried = length words" by (rule attempts_length)
  from process_words_attempts [of ins ?asg words no_results st] facts(2)
  have lists: "added (results s) = concat (map to_added ?tried)"
      "skipped (results s) = concat (map2 to_skipped words ?tried)"
      "errors (results s) = concat (map2 to_errors words ?tried)"
    by (auto simp: no_results_def)
  have total: "addedCount s + skippedCount s + errorCount s + length (filter silent ?tried)
                 = totalSent s"
    using placed_total [of words ?tried] len facts(3-6) lists by simp
  have le: "addedCount s + skippedCount s + errorCount s \<le> totalSent s"
    using total by simp
  have full: "(\<forall>t row. answers_outcome (fst (ins t row))) \<longrightarrow>
            addedCount s + skippedCount s + errorCount s = totalSent s"
  proof
    assume "\<forall>t row. answers_outcome (fst (ins t row))"
    from answered_not_silent [OF this, of ?asg words st] total
    show "addedCount s + skippedCount s + errorCount s = totalSent s" by simp
  qed
  have one: "\<forall>w t. length (to_added t) + length (to_skipped w t) + length (to_errors w t)
                  = (if silent t then 0 else 1)"
    using one_list_or_none by blast
  note sent = facts(3) and a = facts(4) and sk = facts(5) and er = facts(6)
  show ?thesis
    unfolding Let_def
    by (intro conjI) (fact sent len lists one a sk er total le full)+
qed

theorem summary_counts_witness:
  "vocabulary_bulk parse_sample gt_zero_sample service_down no_groups moody_insert
     [cat, dog, cat, dog] 0
   = (Created \<lparr> totalSent = 4, addedCount = 1, skippedCount = 1, errorCount = 1,
                aiProcessingUsed = True,
                results = \<lparr> added = [dog_row], skipped = [''cat''],
                            errors = [(''dog'', Message ''canceling statement due to statement timeout'')] \<rparr> \<rparr>,
      4,
      [ExistingGroups [], ErrorFromAI CallFailed, AIAssignments (fallback [cat, dog, cat, dog])])
   \<and> length (filter silent
         (attempts moody_insert
            (assignments_for parse_sample service_down no_groups [cat, dog, cat, dog] (0::nat))
            [cat, dog, cat, dog] 0)) = 1"
proof -
  have run: "vocabulary_bulk parse_sample gt_zero_sample service_down no_groups moody_insert
     [cat, dog, cat, dog] 0
   = (Created \<lparr> totalSent = 4, addedCount = 1, skippedCount = 1, errorCount = 1,
                aiProcessingUsed = True,
                results = \<lparr> added = [dog_row], skipped = [''cat''],
                            errors = [(''dog'', Message ''canceling statement due to statement timeout'')] \<rparr> \<rparr>,
      4,
      [ExistingGroups [], ErrorFromAI CallFailed, AIAssignments (fallback [cat, dog, cat, dog])])"
    by (simp add: bulk_eval cat_def dog_def dog_row_def moody_insert_def unique_violation_def
          timeout_error_def is_duplicate_def)
  let ?s = "\<lparr> totalSent = 4, addedCount = 1, skippedCount = 1, errorCount = 1,
                aiProcessingUsed = True,
                results = \<lparr> added = [dog_row], skipped = [''cat''],
                            errors = [(''dog'', Message ''canceling statement due to statement timeout'')] \<rparr> \<rparr>"
  let ?tried = "attempts moody_insert
            (assignments_for parse_sample service_down no_groups [cat, dog, cat, dog] (0::nat))
            [cat, dog, cat, dog] 0"
  from summary_counts [OF run]
  have "addedCount ?s + skippedCount ?s + errorCount ?s + length (filter silent ?tried)
          = totalSent ?s"
    unfolding Let_def by (elim conjE)
  then have "length (filter silent ?tried) = 1"
    by simp
  with run show ?thesis by blast
qed

section \<open>Failure isolation\<close>

text \<open>
  C4, as stated, fails when the duplicate conflict is the unique-constraint violation of
  the store: a foreign-key failure (code 23503) whose message contains ``duplicate'' is
  another error, and its words are appended to \<^verbatim>\<open>skipped\<close>, none to \<^verbatim>\<open>errors\<close>.
\<close>

theorem failed_insertion_is_isolated_counterexample:
  "process_words (rejecting_insert foreign_key_failure) (JArr []) [cat, dog] (no_results, ())
     = (\<lparr> added = [], skipped = [''cat'', ''dog''], errors = [] \<rparr>, ()) \<and>
   code foreign_key_failure = ''23503''"
  by (simp add: process_words_def process_word_def find_assignment_def rejecting_insert_def
        record_outcome_def is_duplicate_def foreign_key_failure_def no_results_def cat_def dog_def)

text \<open>
  C4, amended.  When the insertion of a word fails with the code 23505 or with a message
  that contains ``duplicate'', the word is appended to \<^verbatim>\<open>skipped\<close> and not to \<^verbatim>\<open>errors\<close>;
  when it fails with any other error, the pair of the word and the error's message is
  appended to \<^verbatim>\<open>errors\<close>.  In both cases the loop goes on: the run over a batch
  \<open>before @ w # after\<close> is the run over \<open>after\<close> from the store as the failed insertion
  left it, every word of \<open>after\<close> has its attempt there, and the final lists are the
  lists with \<open>w\<close> recorded, followed by what those attempts put in them.
\<close>

theorem failed_insertion_is_isolated:
  assumes "process_words ins assignments before acc = (res, st)"
      and "find_assignment assignments (word w) = Inr a"
      and "ins st (insert_row w a) = (r, st')"
      and "error r = Some e"
  shows "let recorded =
               (if code e = ''23505'' \<or> (\<exists>pre post. message e = pre @ ''duplicate'' @ post)
                then res\<lparr>skipped := skipped res @ [word w]\<rparr>
                else res\<lparr>errors := errors res @ [(word w, Message (message e))]\<rparr>);
             tried = attempts ins assignments after st'
         in process_words ins assignments (before @ w # after) acc
              = process_words ins assignments after (recorded, st') \<and>
            length tried = length after \<and>
            fst (process_words ins assignments (before @ w # after) acc)
              = \<lparr> added = added recorded @ concat (map to_added tried),
                  skipped = skipped recorded @ concat (map2 to_skipped after tried),
                  errors = errors recorded @ concat (map2 to_errors after tried) \<rparr>"
proof -
  define recorded where "recorded =
               (if code e = ''23505'' \<or> (\<exists>pre post. message e = pre @ ''duplicate'' @ post)
                then res\<lparr>skipped := skipped res @ [word w]\<rparr>
                else res\<lparr>errors := errors res @ [(word w, Message (message e))]\<rparr>)"
  define tried where "tried = attempts ins assignments after st'"
  have test: "is_duplicate e \<longleftrightarrow>
          code e = ''23505'' \<or> (\<exists>pre post. message e = pre @ ''duplicate'' @ post)"
    by (simp only: is_duplicate_def js_includes_iff)
  have "process_word ins assignments (res, st) w = (record_outcome w r res, st')"
    using assms(2,3) by (rule process_word_attempt)
  moreover have "record_outcome w r res = recorded"
    using assms(4) test by (simp add: record_outcome_def recorded_def)
  ultimately have go: "process_words ins assignments (before @ w # after) acc
              = process_words ins assignments after (recorded, st')"
    using assms(1) by (simp add: process_words_append process_words_Cons)
  from process_words_attempts [of ins assignments after recorded st']
  have keep: "fst (process_words ins assignments (before @ w # after) acc)
              = \<lparr> added = added recorded @ concat (map to_added tried),
                  skipped = skipped recorded @ concat (map2 to_skipped after tried),
                  errors = errors recorded @ concat (map2 to_errors after tried) \<rparr>"
    unfolding go tried_def by auto
  have len: "length tried = length after"
    unfolding tried_def by (rule attempts_length)
  show ?thesis
    unfolding Let_def recorded_def [symmetric] tried_def [symmetric]
    by (intro conjI) (fact go len keep)+
qed

theorem failed_insertion_is_isolated_witness:
  "process_words moody_insert (JArr []) [cat, dog, cat] (no_results, 1) =
     (\<lparr> added = [insert_row cat None], skipped = [''dog''],
        errors = [(''cat'', Message ''canceling statement due to statement timeout'')] \<rparr>, 4)"
proof -
  have start: "process_words moody_insert (JArr []) [cat] (no_results, 1)
     = (\<lparr> added = [], skipped = [],
          errors = [(''cat'', Message ''canceling statement due to statement timeout'')] \<rparr>, 2)"
    by (simp add: process_words_def process_word_def find_assignment_def moody_insert_def
          record_outcome_def is_duplicate_def timeout_error_def no_results_def cat_def)
  have look: "find_assignment (JArr []) (word dog) = Inr None"
    by (simp add: find_assignment_def)
  have ans: "moody_insert 2 (insert_row dog None)
               = (\<lparr> data = None, error = Some unique_violation \<rparr>, 3)"
    by (simp add: moody_insert_def)
  have err: "error \<lparr> data = None :: Row list option, error = Some unique_violation \<rparr>
               = Some unique_violation"
    by simp
  have rest: "process_words moody_insert (JArr []) [cat]
               (\<lparr> added = [], skipped = [''dog''],
                  errors = [(''cat'', Message ''canceling statement due to statement timeout'')] \<rparr>, 3)
             = (\<lparr> added = [insert_row cat None], skipped = [''dog''],
                  errors = [(''cat'', Message ''canceling statement due to statement timeout'')] \<rparr>, 4)"
    by (simp add: process_words_def process_word_def find_assignment_def moody_insert_def
          record_outcome_def)
  have "code unique_violation = ''23505''"
    by (simp add: unique_violation_def)
  with failed_insertion_is_isolated [of moody_insert "JArr []" "[cat]" "(no_results, 1)"
         "\<lparr> added = [], skipped = [],
            errors = [(''cat'', Message ''canceling statement due to statement timeout'')] \<rparr>" 2
         dog None "\<lparr> data = None, error = Some unique_violation \<rparr>" 3 unique_violation "[cat]",
         OF start look ans err] rest
  show ?thesis
    by (simp add: Let_def dog_def del: attempts.simps)
qed

section \<open>The read of the existing labels\<close>

text \<open>
  C7.  When the read of the existing group labels fails (the store answers with an error
  and no data), the bulk route goes on with the empty label set: it answers as it does
  after a read that returns no label, leaves the store in the same state, and differs only
  in the console, where the error of the read is logged first.
\<close>

theorem failed_group_read_is_recovered:
  assumes "sel st = \<lparr> existingGroupsData = None, groupError = Some e \<rparr>"
      and "sel' st = \<lparr> existingGroupsData = Some [], groupError = None \<rparr>"
      and "words \<noteq> []"
  shows "existingGroups (sel st) = [] \<and>
         vocabulary_bulk parse gt_zero generateContent sel ins words st =
           (case vocabulary_bulk parse gt_zero generateContent sel' ins words st of
              (answer, st', console) \<Rightarrow> (answer, st', ErrorFetchingGroups e # console))"
  using assms
  by (simp add: vocabulary_bulk_def existingGroups_def spread_set_def List.map_filter_def Let_def
           split: prod.splits sum.splits)

theorem failed_group_read_is_recovered_witness:
  "vocabulary_bulk parse_sample gt_zero_sample service_down groups_unreadable unique_insert [cat] []
   = (Created \<lparr> totalSent = 1, addedCount = 1, skippedCount = 0, errorCount = 0,
                aiProcessingUsed = True,
                results = \<lparr> added = [cat_row], skipped = [], errors = [] \<rparr> \<rparr>,
      [cat_row],
      [ErrorFetchingGroups read_failure, ExistingGroups [], ErrorFromAI CallFailed,
       AIAssignments (fallback [cat])])"
proof -
  have normal: "vocabulary_bulk parse_sample gt_zero_sample service_down no_groups unique_insert [cat] []
   = (Created \<lparr> totalSent = 1, addedCount = 1, skippedCount = 0, errorCount = 0,
                aiProcessingUsed = True,
                results = \<lparr> added = [cat_row], skipped = [], errors = [] \<rparr> \<rparr>,
      [cat_row],
      [ExistingGroups [], ErrorFromAI CallFailed, AIAssignments (fallback [cat])])"
    by (simp add: bulk_eval cat_def cat_row_def unique_insert_def)
  have "groups_unreadable ([] :: Row list)
          = \<lparr> existingGroupsData = None, groupError = Some read_failure \<rparr>"
    by (simp add: groups_unreadable_def)
  moreover have "no_groups ([] :: Row list) = \<lparr> existingGroupsData = Some [], groupError = None \<rparr>"
    by (simp add: no_groups_def)
  moreover have "[cat] \<noteq> []" by simp
  ultimately show ?thesis
    using failed_group_read_is_recovered [of groups_unreadable "[]" read_failure no_groups "[cat]"
            parse_sample gt_zero_sample service_down unique_insert]
    by (simp add: normal)
qed

section \<open>The fallback of the helper\<close>

text \<open>
  When the call of the service fails, or \<^verbatim>\<open>JSON.parse\<close> throws on the reply stripped of
  its code fences, the helper returns the total fallback, in which every requested word
  finds an assignment with group and sentence \<^verbatim>\<open>null\<close>.
\<close>

lemma find_in_fallback:
  "w \<in> set newWords \<Longrightarrow>
   \<exists>a. find_in_array
         (map (\<lambda>w. JObj [(''word'', JStr (word w)), (''group_name'', JNull), (''sentence'', JNull)])
            newWords) (word w) = Inr (Some a) \<and>
       read_property a ''group_name'' = Inr (Some JNull) \<and>
       read_property a ''sentence'' = Inr (Some JNull)"
  by (induction newWords) auto

lemma fallback_on_failure:
  assumes "generateContent (prompt newWords groups) = None \<or>
           (\<exists>text. generateContent (prompt newWords groups) = Some text \<and>
                   parse (cleanedText text) = None)"
  shows "fst (getGroupNamesAndSentences parse generateContent newWords groups) = fallback newWords"
    and "w \<in> set newWords \<Longrightarrow>
           \<exists>a. find_assignment (fallback newWords) (word w) = Inr (Some a) \<and>
               group_name (insert_row w (Some a)) = Some JNull \<and>
               sentence (insert_row w (Some a)) = Some JNull"
proof -
  show "fst (getGroupNamesAndSentences parse generateContent newWords groups) = fallback newWords"
    using assms by (auto simp: getGroupNamesAndSentences_def)
next
  assume "w \<in> set newWords"
  from find_in_fallback [OF this] obtain a where
    "find_assignment (fallback newWords) (word w) = Inr (Some a)"
    "read_property a ''group_name'' = Inr (Some JNull)"
    "read_property a ''sentence'' = Inr (Some JNull)"
    by (auto simp: find_assignment_def fallback_def)
  then show "\<exists>a. find_assignment (fallback newWords) (word w) = Inr (Some a) \<and>
               group_name (insert_row w (Some a)) = Some JNull \<and>
               sentence (insert_row w (Some a)) = Some JNull"
    by (intro exI [of _ a]) (simp add: insert_row_def assigned_def)
qed

text \<open>The parsed value is not looked at: whatever \<^verbatim>\<open>JSON.parse\<close> returns is returned.\<close>

lemma parsed_reply_is_not_checked:
  assumes "generateContent (prompt newWords groups) = Some text"
      and "parse (cleanedText text) = Some v"
  shows "fst (getGroupNamesAndSentences parse generateContent newWords groups) = v"
  using assms by (simp add: getGroupNamesAndSentences_def)

text \<open>
  C3.  The claim says that a parsed result that is not a well-formed array is replaced by
  the total fallback.  The helper has no such check: the fenced reply \<^verbatim>\<open>{}\<close> parses to the
  empty object and is returned in place of the fallback for the batch.  In the route,
  \<^verbatim>\<open>assignments.find\<close> is then not a function: the word is listed in \<^verbatim>\<open>errors\<close> and no
  insertion is attempted, where the fallback would have inserted it without group and
  sentence.
\<close>

theorem object_reply_is_not_replaced:
  "getGroupNamesAndSentences parse_sample fenced_braces [cat] [] = (JObj [], []) \<and>
   fallback [cat] =
     JArr [JObj [(''word'', JStr ''cat''), (''group_name'', JNull), (''sentence'', JNull)]] \<and>
   vocabulary_bulk parse_sample gt_zero_sample fenced_braces no_groups unique_insert [cat] []
   = (Created \<lparr> totalSent = 1, addedCount = 0, skippedCount = 0, errorCount = 1,
                aiProcessingUsed = False,
                results = \<lparr> added = [], skipped = [],
                            errors = [(''cat'', MessageOf TypeError)] \<rparr> \<rparr>,
      [],
      [ExistingGroups [], AIAssignments (JObj [])])"
  by (simp add: bulk_eval fenced_braces_def cleaned_fenced_braces parse_sample_def cat_def)

section \<open>The flag \<^verbatim>\<open>aiProcessingUsed\<close>\<close>

text \<open>
  C2.  The claim says that the flag is false when the call of the service fails.  The
  helper catches the failure and returns the fallback, an array with one element per word,
  and the flag is \<^verbatim>\<open>assignments.length > 0\<close>: on the batch of one word, with the service
  down, the route answers \<^verbatim>\<open>aiProcessingUsed\<close> true.  The added row has the group and the
  sentence \<^verbatim>\<open>null\<close>, as the claim says.
\<close>

theorem flag_after_failed_call:
  "vocabulary_bulk parse_sample gt_zero_sample service_down no_groups unique_insert [cat] []
   = (Created \<lparr> totalSent = 1, addedCount = 1, skippedCount = 0, errorCount = 0,
                aiProcessingUsed = True,
                results = \<lparr> added = [cat_row], skipped = [], errors = [] \<rparr> \<rparr>,
      [cat_row],
      [ExistingGroups [], ErrorFromAI CallFailed, AIAssignments (fallback [cat])])"
  by (simp add: bulk_eval cat_def cat_row_def unique_insert_def)

text \<open>The same on every non-empty batch, with any store.\<close>

lemma failed_call_sets_flag:
  assumes "generateContent (prompt (w # ws) (existingGroups (sel st))) = None"
  shows "\<exists>s st' console.
           vocabulary_bulk parse gt_zero generateContent sel ins (w # ws) st
             = (Created s, st', console) \<and>
           aiProcessingUsed s"
  using assms
  by (simp add: vocabulary_bulk_def getGroupNamesAndSentences_def fallback_def Let_def
        length_greater_zero_def split: prod.splits)

section \<open>Submitting a batch twice\<close>

lemma lookups_succeed_Cons:
  "lookups_succeed asg (w # ws) \<longleftrightarrow>
     (\<exists>a. find_assignment asg (word w) = Inr a) \<and> lookups_succeed asg ws"
  by (auto simp: lookups_succeed_def split: sum.splits)

lemma row_word_insert_row: "row_word (insert_row w a) = word w"
  by (simp add: insert_row_def)

lemma process_word_unique_new:
  assumes "find_assignment asg (word w) = Inr a" and "word w \<notin> set (map row_word table)"
  shows "process_word unique_insert asg (res, table) w
           = (res\<lparr>added := added res @ [insert_row w a]\<rparr>, table @ [insert_row w a])"
  using assms
  by (simp add: process_word_def unique_insert_def record_outcome_def row_word_insert_row)

lemma process_word_unique_present:
  assumes "find_assignment asg (word w) = Inr a" and "word w \<in> set (map row_word table)"
  shows "process_word unique_insert asg (res, table) w
           = (res\<lparr>skipped := skipped res @ [word w]\<rparr>, table)"
  using assms
  by (simp add: process_word_def unique_insert_def record_outcome_def row_word_insert_row
        unique_violation_def is_duplicate_def)

lemma process_words_unique_words:
  assumes "lookups_succeed asg ws"
  shows "set (map row_word (snd (process_words unique_insert asg ws (res, table))))
           = set (map row_word table) \<union> set (map word ws)"
  using assms
proof (induction ws arbitrary: res table)
  case Nil
  then show ?case by (simp add: process_words_Nil)
next
  case (Cons w ws)
  then obtain a where look: "find_assignment asg (word w) = Inr a"
    and rest: "lookups_succeed asg ws"
    by (auto simp: lookups_succeed_Cons)
  show ?case
  proof (cases "word w \<in> set (map row_word table)")
    case True
    with process_word_unique_present [OF look True, of res] Cons.IH [OF rest]
    show ?thesis by (auto simp: process_words_Cons)
  next
    case False
    with process_word_unique_new [OF look False, of res] Cons.IH [OF rest]
    show ?thesis by (auto simp: process_words_Cons row_word_insert_row)
  qed
qed

lemma process_words_unique_present:
  assumes "lookups_succeed asg ws" and "set (map word ws) \<subseteq> set (map row_word table)"
  shows "process_words unique_insert asg ws (res, table)
           = (res\<lparr>skipped := skipped res @ map word ws\<rparr>, table)"
  using assms
proof (induction ws arbitrary: res)
  case Nil
  then show ?case by (simp add: process_words_Nil)
next
  case (Cons w ws)
  then obtain a where look: "find_assignment asg (word w) = Inr a"
    and rest: "lookups_succeed asg ws"
    by (auto simp: lookups_succeed_Cons)
  from Cons.prems have present: "word w \<in> set (map row_word table)"
    and sub: "set (map word ws) \<subseteq> set (map row_word table)" by auto
  show ?case
    using process_word_unique_present [OF look present] Cons.IH [OF rest sub]
    by (simp add: process_words_Cons)
qed

lemma vocabulary_bulk_run:
  assumes "words \<noteq> []"
      and "vocabulary_bulk parse gt_zero generateContent sel ins words st = (answer, st', console)"
  shows "st' = snd (process_words ins (assignments_for parse generateContent sel words st) words
                      (no_results, st))"
  using assms
  by (auto simp: vocabulary_bulk_def assignments_for_def Let_def
           split: if_splits prod.splits sum.splits)

lemma vocabulary_bulk_array:
  assumes "words \<noteq> []"
      and "assignments_for parse generateContent sel words st = JArr elems"
      and "vocabulary_bulk parse gt_zero generateContent sel ins words st = (answer, st', console)"
      and "process_words ins (JArr elems) words (no_results, st) = (res, st'')"
  shows "answer = Created \<lparr> totalSent = length words,
                            addedCount = length (added res),
                            skippedCount = length (skipped res),
                            errorCount = length (errors res),
                            aiProcessingUsed = (elems \<noteq> []),
                            results = res \<rparr>"
  using assms
  by (auto simp: vocabulary_bulk_def assignments_for_def Let_def length_greater_zero_def
           split: if_splits prod.splits sum.splits)

lemma lookups_succeed_array:
  assumes "lookups_succeed asg words" and "words \<noteq> []"
  shows "\<exists>elems. asg = JArr elems"
proof -
  from assms obtain w :: NewWord and a where "find_assignment asg (word w) = Inr a"
    by (cases words) (auto simp: lookups_succeed_Cons)
  then show ?thesis
    by (cases asg) (auto simp: find_assignment_def)
qed

text \<open>
  C5.  The claim says that the second submission of a batch skips every word when no
  insertion fails.  The first submission (service down) adds the word.  On the second the
  service replies the fenced object \<^verbatim>\<open>{}\<close>, which is not replaced by the fallback;
  \<^verbatim>\<open>assignments.find\<close> is not a function, the iteration's \<^verbatim>\<open>catch\<close> lists the word in
  \<^verbatim>\<open>errors\<close>, and \<^verbatim>\<open>skippedCount\<close> is 0 with \<^verbatim>\<open>totalSent\<close> 1, although no insertion failed.
\<close>

theorem resubmission_after_object_reply:
  "vocabulary_bulk parse_sample gt_zero_sample service_down no_groups unique_insert [cat] []
   = (Created \<lparr> totalSent = 1, addedCount = 1, skippedCount = 0, errorCount = 0,
                aiProcessingUsed = True,
                results = \<lparr> added = [cat_row], skipped = [], errors = [] \<rparr> \<rparr>,
      [cat_row],
      [ExistingGroups [], ErrorFromAI CallFailed, AIAssignments (fallback [cat])]) \<and>
   vocabulary_bulk parse_sample gt_zero_sample fenced_braces no_groups unique_insert [cat] [cat_row]
   = (Created \<lparr> totalSent = 1, addedCount = 0, skippedCount = 0, errorCount = 1,
                aiProcessingUsed = False,
                results = \<lparr> added = [], skipped = [], errors = [(''cat'', MessageOf TypeError)] \<rparr> \<rparr>,
      [cat_row],
      [ExistingGroups [], AIAssignments (JObj [])])"
  by (simp add: bulk_eval cat_def cat_row_def unique_insert_def fenced_braces_def
        cleaned_fenced_braces parse_sample_def)

text \<open>
  With the store that has the unique word column, the claim holds whenever no lookup of a
  word throws in either submission: the second submission answers 201 with \<^verbatim>\<open>addedCount\<close>
  0 and \<^verbatim>\<open>skippedCount\<close> equal to \<^verbatim>\<open>totalSent\<close>, and leaves the table as it was.
\<close>

lemma resubmission_is_skipped:
  assumes "vocabulary_bulk parse gt_zero generate1 sel unique_insert words table
             = (answer1, table1, console1)"
      and "vocabulary_bulk parse gt_zero generate2 sel unique_insert words table1
             = (answer2, table2, console2)"
      and "words \<noteq> []"
      and "lookups_succeed (assignments_for parse generate1 sel words table) words"
      and "lookups_succeed (assignments_for parse generate2 sel words table1) words"
  shows "table2 = table1 \<and>
         (\<exists>used. answer2 =
            Created \<lparr> totalSent = length words, addedCount = 0, skippedCount = length words,
                      errorCount = 0, aiProcessingUsed = used,
                      results = \<lparr> added = [], skipped = map word words, errors = [] \<rparr> \<rparr>)"
proof -
  let ?asg1 = "assignments_for parse generate1 sel words table"
  let ?asg2 = "assignments_for parse generate2 sel words table1"
  have "table1 = snd (process_words unique_insert ?asg1 words (no_results, table))"
    using assms(3,1) by (rule vocabulary_bulk_run)
  then have "set (map row_word table1) = set (map row_word table) \<union> set (map word words)"
    using process_words_unique_words [OF assms(4)] by simp
  then have present: "set (map word words) \<subseteq> set (map row_word table1)" by blast
  have run2: "process_words unique_insert ?asg2 words (no_results, table1)
          = (\<lparr> added = [], skipped = map word words, errors = [] \<rparr>, table1)"
    using process_words_unique_present [OF assms(5) present, of no_results]
    by (simp add: no_results_def)
  have "table2 = snd (process_words unique_insert ?asg2 words (no_results, table1))"
    using assms(3,2) by (rule vocabulary_bulk_run)
  with run2 have same: "table2 = table1" by simp
  from lookups_succeed_array [OF assms(5,3)] obtain elems where arr: "?asg2 = JArr elems"
    by blast
  from run2 arr have "process_words unique_insert (JArr elems) words (no_results, table1)
          = (\<lparr> added = [], skipped = map word words, errors = [] \<rparr>, table1)" by simp
  from vocabulary_bulk_array [OF assms(3) arr assms(2) this]
  have "answer2 =
            Created \<lparr> totalSent = length words, addedCount = 0, skippedCount = length words,
                      errorCount = 0, aiProcessingUsed = (elems \<noteq> []),
                      results = \<lparr> added = [], skipped = map word words, errors = [] \<rparr> \<rparr>"
    by simp
  with same show ?thesis by blast
qed

section \<open>Batches of 50\<close>










section \<open>The groups view\<close>

text \<open>
  C10.  The claim says that every fetched row with a label is in the group of its label.
  The route keeps the groups in a plain object: for a row labelled \<^verbatim>\<open>constructor\<close>,
  \<^verbatim>\<open>groups[word.group_name]\<close> reads the inherited \<^verbatim>\<open>Object\<close> function, no array is created,
  \<^verbatim>\<open>push\<close> is not a function, and the route answers 500 with no group at all.
\<close>

theorem groups_view_fails_on_prototype_name:
  "vocabulary_groups (groups_query (\<lambda>rows. rows) [mason]) = GroupsFailed (MessageOf TypeError)"
  by (simp add: vocabulary_groups_def groups_query_def mason_def add_member_def property_key_def
        object_prototype_names_def)

lemma add_member_labelled:
  assumes "entry_group_name e = Some k" and "k \<notin> set object_prototype_names"
  shows "add_member g e =
           Inr (g(k \<mapsto> (case g k of None \<Rightarrow> [] | Some ms \<Rightarrow> ms) @ [member_of e]))"
  using assms by (simp add: add_member_def property_key_def split: option.splits)

lemma for_each_labelled:
  assumes "\<forall>e \<in> set rows. \<exists>k. entry_group_name e = Some k \<and> k \<notin> set object_prototype_names"
  shows "for_each g rows =
           Inr (\<lambda>k. if group_members rows k = [] then g k
                     else Some ((case g k of None \<Rightarrow> [] | Some ms \<Rightarrow> ms) @ group_members rows k))"
  using assms
proof (induction rows arbitrary: g)
  case Nil
  then show ?case by (simp add: group_members_def)
next
  case (Cons e es)
  then obtain k0 where label: "entry_group_name e = Some k0" "k0 \<notin> set object_prototype_names"
    by auto
  let ?g = "g(k0 \<mapsto> (case g k0 of None \<Rightarrow> [] | Some ms \<Rightarrow> ms) @ [member_of e])"
  have step: "add_member g e = Inr ?g"
    using label by (rule add_member_labelled)
  have rest: "\<forall>e \<in> set es. \<exists>k. entry_group_name e = Some k \<and> k \<notin> set object_prototype_names"
    using Cons.prems by simp
  have "for_each g (e # es) = for_each ?g es"
    by (simp add: step)
  also have "\<dots> = Inr (\<lambda>k. if group_members es k = [] then ?g k
                     else Some ((case ?g k of None \<Rightarrow> [] | Some ms \<Rightarrow> ms) @ group_members es k))"
    by (rule Cons.IH [OF rest])
  also have "(\<lambda>k. if group_members es k = [] then ?g k
                     else Some ((case ?g k of None \<Rightarrow> [] | Some ms \<Rightarrow> ms) @ group_members es k))
           = (\<lambda>k. if group_members (e # es) k = [] then g k
                     else Some ((case g k of None \<Rightarrow> [] | Some ms \<Rightarrow> ms) @ group_members (e # es) k))"
    using label(1) by (auto simp: group_members_def fun_eq_iff)
  finally show ?case .
qed

text \<open>
  When no label is the name of a property of \<^verbatim>\<open>Object.prototype\<close>, the view is as the
  claim says: the group of a label holds exactly the fetched rows of that label, and a
  row of the table without label is in no group.
\<close>

lemma vocabulary_groups_partition:
  assumes "\<forall>xs. set (ordered xs) \<subseteq> set xs"
      and "\<forall>e \<in> set table. \<forall>k. entry_group_name e = Some k \<longrightarrow> k \<notin> set object_prototype_names"
  shows "vocabulary_groups (groups_query ordered table) =
           Groups (\<lambda>k. let members =
                          group_members (ordered (filter (\<lambda>e. entry_group_name e \<noteq> None) table)) k
                       in if members = [] then None else Some members)"
proof -
  let ?rows = "ordered (filter (\<lambda>e. entry_group_name e \<noteq> None) table)"
  have "set ?rows \<subseteq> set (filter (\<lambda>e. entry_group_name e \<noteq> None) table)"
    using assms(1) by blast
  with assms(2) have
    "\<forall>e \<in> set ?rows. \<exists>k. entry_group_name e = Some k \<and> k \<notin> set object_prototype_names"
    by auto
  from for_each_labelled [OF this, of Map.empty]
  have "for_each Map.empty ?rows =
          Inr (\<lambda>k. if group_members ?rows k = [] then None else Some (group_members ?rows k))"
    by (simp del: not_None_eq cong: if_cong)
  then show ?thesis
    by (simp del: not_None_eq add: vocabulary_groups_def groups_query_def Let_def)
qed

end
